theory Spec2Isabelle
  imports Main "HOL-Library.Sublist" "HOL-Library.Word" "HOL-Library.AList"
begin

section \<open>Python strings and bytes\<close>

text \<open>
  A Python \<open>str\<close> is a sequence of Unicode code points and \<open>len\<close> counts code points,
  so a string is a list of code points (natural numbers below \<open>0x110000\<close>, lone
  surrogates included, as in Python). \<open>bytes\<close> is a list of 8-bit words.
  \<open>lit\<close> turns an ASCII literal of the source into its code points.
\<close>

type_synonym pystr = "nat list"
type_synonym pybytes = "8 word list"

definition lit :: "string \<Rightarrow> pystr" where
  "lit s = map of_char s"

text \<open>
  \<open>str.isspace\<close> for one code point: the code points CPython treats as whitespace
  (bidirectional type WS, B or S, or category Zs). U+200B (zero width space) is not one.
\<close>

definition py_isspace :: "nat \<Rightarrow> bool" where
  "py_isspace c =
     ((9 \<le> c \<and> c \<le> 13) \<or> (28 \<le> c \<and> c \<le> 32) \<or> c = 133 \<or> c = 160 \<or> c = 5760 \<or>
      (8192 \<le> c \<and> c \<le> 8202) \<or> c = 8232 \<or> c = 8233 \<or> c = 8239 \<or> c = 8287 \<or>
      c = 12288)"

text \<open>\<open>s.strip()\<close>: leading and trailing whitespace removed.\<close>

definition py_strip :: "pystr \<Rightarrow> pystr" where
  "py_strip s = rev (dropWhile py_isspace (rev (dropWhile py_isspace s)))"

text \<open>
  \<open>s.replace(old, new)\<close>: the occurrences of \<open>old\<close> are found from the left and do not
  overlap; each is replaced by \<open>new\<close>. With an empty \<open>old\<close>, Python puts \<open>new\<close> before
  every character and at the end.
\<close>

function replace_from :: "pystr \<Rightarrow> pystr \<Rightarrow> pystr \<Rightarrow> pystr" where
  "replace_from old new [] = []"
| "replace_from old new (c # cs) =
     (if old \<noteq> [] \<and> prefix old (c # cs)
      then new @ replace_from old new (drop (length old) (c # cs))
      else c # replace_from old new cs)"
  by pat_completeness auto
termination
  by (relation "measure (\<lambda>(old, new, s). length s)") auto

declare replace_from.simps [simp del]

definition py_replace :: "pystr \<Rightarrow> pystr \<Rightarrow> pystr \<Rightarrow> pystr" where
  "py_replace s old new =
     (if old = [] then new @ concat (map (\<lambda>c. c # new) s) else replace_from old new s)"

text \<open>
  \<open>s.encode('utf-8')\<close> (strict error handler, the default): one to four bytes per
  code point; a surrogate code point (U+D800..U+DFFF) raises \<open>UnicodeEncodeError\<close>.
  A number from \<open>0x110000\<close> on is no code point of a Python string; the model rejects it
  with the same error.
\<close>

datatype error = UnicodeEncodeError

definition byte :: "nat \<Rightarrow> 8 word" where
  "byte n = of_nat n"

definition utf8_encode_cp :: "nat \<Rightarrow> error + pybytes" where
  "utf8_encode_cp c =
     (if c < 0x80 then Inr [byte c]
      else if c < 0x800 then Inr [byte (0xC0 + c div 64), byte (0x80 + c mod 64)]
      else if c < 0x10000 then
        (if 0xD800 \<le> c \<and> c \<le> 0xDFFF then Inl UnicodeEncodeError
         else Inr [byte (0xE0 + c div 4096), byte (0x80 + (c div 64) mod 64),
                   byte (0x80 + c mod 64)])
      else if c < 0x110000 then
        Inr [byte (0xF0 + c div 262144), byte (0x80 + (c div 4096) mod 64),
             byte (0x80 + (c div 64) mod 64), byte (0x80 + c mod 64)]
      else Inl UnicodeEncodeError)"

fun utf8_encode :: "pystr \<Rightarrow> error + pybytes" where
  "utf8_encode [] = Inr []"
| "utf8_encode (c # cs) =
     (case utf8_encode_cp c of
        Inl e \<Rightarrow> Inl e
      | Inr bs \<Rightarrow> (case utf8_encode cs of Inl e \<Rightarrow> Inl e | Inr rest \<Rightarrow> Inr (bs @ rest)))"

section \<open>The objects the dispatcher handles\<close>

text \<open>
  A value produced by the evaluator. The dispatcher only asks which classes it is an
  instance of (\<open>isinstance\<close>, one flag per class tested), reads \<open>jump_url\<close> of a message,
  the text of a \<open>str\<close> and otherwise \<open>repr(result)\<close>.
\<close>

record pyvalue =
  isinstance_Message :: bool
  isinstance_File :: bool
  isinstance_Embed :: bool
  isinstance_PaginatorInterface :: bool
  isinstance_str :: bool
  jump_url :: pystr
  str_value :: pystr
  repr :: pystr

text \<open>An account, channel or role: its id and its mention text (\<open>.mention\<close>).\<close>

record entity =
  snowflake :: nat
  mention :: pystr

text \<open>The objects bound to names: \<open>None\<close>, an entity, or any other object (by identity).\<close>

datatype pyobj = PyNone | Entity entity | Opaque nat

text \<open>
  \<open>discord.AllowedMentions\<close>: which kinds of mention may notify.
  \<open>AllowedMentions.none()\<close> turns every kind off.
\<close>

record allowed_mentions =
  everyone :: bool
  users :: bool
  roles :: bool
  replied_user :: bool

definition AllowedMentions_none :: allowed_mentions where
  "AllowedMentions_none =
     \<lparr>everyone = False, users = False, roles = False, replied_user = False\<rparr>"

record discord_file =
  filename :: pystr
  fp :: pybytes

record bot =
  http_token :: "pystr option"

text \<open>
  A \<open>WrappedPaginator\<close> as the dispatcher builds it: the constructor's arguments and the
  lines handed to \<open>add_line\<close>. A \<open>PaginatorInterface\<close> binds it to a bot and an owner.
\<close>

record paginator =
  pg_prefix :: pystr
  pg_suffix :: pystr
  max_size :: nat
  pg_lines :: "pystr list"

definition WrappedPaginator :: "pystr \<Rightarrow> pystr \<Rightarrow> nat \<Rightarrow> paginator" where
  "WrappedPaginator p s m = \<lparr>pg_prefix = p, pg_suffix = s, max_size = m, pg_lines = []\<rparr>"

definition add_line :: "paginator \<Rightarrow> pystr \<Rightarrow> paginator" where
  "add_line p l = p\<lparr>pg_lines := pg_lines p @ [l]\<rparr>"

record paginator_interface =
  pi_bot :: bot
  pi_paginator :: paginator
  owner :: entity

definition PaginatorInterface :: "bot \<Rightarrow> paginator \<Rightarrow> entity \<Rightarrow> paginator_interface" where
  "PaginatorInterface b p ow = \<lparr>pi_bot = b, pi_paginator = p, owner = ow\<rparr>"

text \<open>
  An argument of a call is either the produced value itself or an object the
  dispatcher constructed. A call on the chat client is \<open>ctx.send(content,
  allowed_mentions=...)\<close> (\<open>None\<close> when the keyword is not passed),
  \<open>ctx.send(file=...)\<close>, \<open>ctx.send(embed=...)\<close> or \<open>interface.send_to(ctx)\<close>.
\<close>

datatype 'a arg = Produced pyvalue | Constructed 'a

datatype call =
    Send_content pystr "allowed_mentions option"
  | Send_file "discord_file arg"
  | Send_embed pyvalue
  | Send_to "paginator_interface arg"

record message =
  mentions :: "entity list"
  channel_mentions :: "entity list"
  role_mentions :: "entity list"

text \<open>
  The invocation context. The chat client, \<open>use_file_check\<close> (jishaku.paginators) and
  \<open>get_var_dict_from_ctx\<close> (jishaku.repl) are collaborators outside this file: the
  context carries what they answer (\<open>send_reply\<close>: the value a call returns;
  \<open>file_check\<close>: \<open>use_file_check(ctx, size)\<close>; \<open>var_dict\<close>:
  \<open>get_var_dict_from_ctx(ctx, Flags.SCOPE_PREFIX)\<close>).
\<close>

record ContextA =
  author :: entity
  ctx_bot :: bot
  interaction :: "pyobj option"
  ctx_message :: message
  send_reply :: "call \<Rightarrow> pyobj"
  file_check :: "nat \<Rightarrow> bool"
  var_dict :: "(pystr \<times> pyobj) list"

text \<open>\<open>PythonFeature\<close>: \<open>self._scope\<close> (an address in the store), \<open>self.retain\<close>,
  \<open>self.last_result\<close> and \<open>self.bot\<close>.\<close>

record feature =
  stored_scope :: nat
  retain :: bool
  last_result :: pyobj
  bot :: bot

section \<open>The result dispatcher\<close>

text \<open>
  The chat is the list of calls made so far. A call is appended to it and returns what
  the client answers.
\<close>

definition ctx_send :: "ContextA \<Rightarrow> call \<Rightarrow> call list \<Rightarrow> pyobj \<times> call list" where
  "ctx_send ctx c chat = (send_reply ctx c, chat @ [c])"

definition token_omitted :: pystr where
  "token_omitted = lit ''[token omitted]''"

definition zero_width_space :: pystr where
  "zero_width_space = [0x200B]"

text \<open>Lines 86 to 88: a non-string is replaced by its \<open>repr\<close>.\<close>

definition text_of :: "pyvalue \<Rightarrow> pystr" where
  "text_of result = (if \<not> isinstance_str result then repr result else str_value result)"

text \<open>Lines 92 to 96: the placeholder for a blank text, then the redaction.\<close>

definition short_content :: "feature \<Rightarrow> pystr \<Rightarrow> pystr" where
  "short_content self result =
     (let result = (if py_strip result = [] then zero_width_space else result) in
      case http_token (bot self) of
        None \<Rightarrow> result
      | Some token \<Rightarrow>
          if token \<noteq> [] then py_replace result token token_omitted else result)"

definition jsk_python_result_handling ::
  "feature \<Rightarrow> ContextA \<Rightarrow> pyvalue \<Rightarrow> call list \<Rightarrow> error + (pyobj \<times> call list)" where
  "jsk_python_result_handling self ctx result chat =
     (if isinstance_Message result then
        Inr (ctx_send ctx
               (Send_content (lit ''<Message <'' @ jump_url result @ lit ''>>'') None) chat)
      else if isinstance_File result then
        Inr (ctx_send ctx (Send_file (Produced result)) chat)
      else if isinstance_Embed result then
        Inr (ctx_send ctx (Send_embed result) chat)
      else if isinstance_PaginatorInterface result then
        Inr (ctx_send ctx (Send_to (Produced result)) chat)
      else
        let result = text_of result in
        if length result \<le> 2000 then
          Inr (ctx_send ctx
                 (Send_content (short_content self result) (Some AllowedMentions_none)) chat)
        else if file_check ctx (length result) then
          (case utf8_encode result of
             Inl e \<Rightarrow> Inl e
           | Inr bytes \<Rightarrow>
               Inr (ctx_send ctx
                      (Send_file (Constructed \<lparr>filename = lit ''output.py'', fp = bytes\<rparr>))
                      chat))
        else
          let paginator = add_line (WrappedPaginator (lit ''```py'') (lit ''```'') 1980) result;
              interface = PaginatorInterface (ctx_bot ctx) paginator (author ctx)
          in Inr (ctx_send ctx (Send_to (Constructed interface)) chat))"

section \<open>The argument binder\<close>





section \<open>The scope provider\<close>

text \<open>
  Modelled from the spec: the class \<open>Scope\<close> (jishaku.repl) is not in this file. The spec
  describes a scope as an ordered mapping from identifier to value, and a new one as
  empty. Scopes are objects with identity, so they live in a store: the address of a
  scope is its index, and \<open>Scope()\<close> allocates the next one.
\<close>

type_synonym scope = "(pystr \<times> pyobj) list"

type_synonym store = "scope list"

definition Scope :: scope where
  "Scope = []"

definition new_Scope :: "store \<Rightarrow> nat \<times> store" where
  "new_Scope h = (length h, h @ [Scope])"

text \<open>\<open>__init__\<close> (lines 46 to 50) and the property \<open>scope\<close> (lines 52 to 63).\<close>

definition init :: "bool \<Rightarrow> bot \<Rightarrow> store \<Rightarrow> feature \<times> store" where
  "init flags_RETAIN b h =
     (let (a, h') = new_Scope h
      in (\<lparr>stored_scope = a, retain = flags_RETAIN, last_result = PyNone, bot = b\<rparr>, h'))"

definition scope :: "feature \<Rightarrow> store \<Rightarrow> nat \<times> store" where
  "scope self h = (if retain self then (stored_scope self, h) else new_Scope h)"

section \<open>Notions the claims are stated with\<close>

subsection \<open>The branches of the dispatcher\<close>

text \<open>
  The spec's step 5: a value that is not text is converted to its \<open>repr\<close> and then
  classified as text. \<open>normalized_text\<close> is the text the three text rules are about,
  written from the spec; the dispatcher's own \<open>text_of\<close> is compared with it below.
\<close>

definition normalized_text :: "pyvalue \<Rightarrow> pystr" where
  "normalized_text v = (if isinstance_str v then str_value v else repr v)"

text \<open>
  The seven outcomes, in the order of the spec, each with its own test and its own
  action. \<open>branch_of_call\<close> reads off a call which \<open>return\<close> statement made it: the
  seven statements make calls of seven different shapes. A raise can only come from the
  \<open>encode\<close> inside the inline-file statement.
\<close>

datatype branch =
  Message_branch | File_branch | Embed_branch | Paginator_branch
  | Short_text | Inline_file | Paginated_text

definition branch_order :: "branch list" where
  "branch_order =
     [Message_branch, File_branch, Embed_branch, Paginator_branch,
      Short_text, Inline_file, Paginated_text]"

fun branch_test :: "ContextA \<Rightarrow> pyvalue \<Rightarrow> branch \<Rightarrow> bool" where
  "branch_test ctx v Message_branch = isinstance_Message v"
| "branch_test ctx v File_branch = isinstance_File v"
| "branch_test ctx v Embed_branch = isinstance_Embed v"
| "branch_test ctx v Paginator_branch = isinstance_PaginatorInterface v"
| "branch_test ctx v Short_text = (length (normalized_text v) \<le> 2000)"
| "branch_test ctx v Inline_file = file_check ctx (length (normalized_text v))"
| "branch_test ctx v Paginated_text = True"

fun branch_action :: "feature \<Rightarrow> ContextA \<Rightarrow> pyvalue \<Rightarrow> branch \<Rightarrow> error + call" where
  "branch_action self ctx v Message_branch =
     Inr (Send_content (lit ''<Message <'' @ jump_url v @ lit ''>>'') None)"
| "branch_action self ctx v File_branch = Inr (Send_file (Produced v))"
| "branch_action self ctx v Embed_branch = Inr (Send_embed v)"
| "branch_action self ctx v Paginator_branch = Inr (Send_to (Produced v))"
| "branch_action self ctx v Short_text =
     Inr (Send_content (short_content self (normalized_text v)) (Some AllowedMentions_none))"
| "branch_action self ctx v Inline_file =
     (case utf8_encode (normalized_text v) of
        Inl e \<Rightarrow> Inl e
      | Inr bytes \<Rightarrow> Inr (Send_file (Constructed \<lparr>filename = lit ''output.py'', fp = bytes\<rparr>)))"
| "branch_action self ctx v Paginated_text =
     Inr (Send_to (Constructed
       (PaginatorInterface (ctx_bot ctx)
          (add_line (WrappedPaginator (lit ''```py'') (lit ''```'') 1980) (normalized_text v))
          (author ctx))))"

fun branch_of_call :: "call \<Rightarrow> branch" where
  "branch_of_call (Send_content content None) = Message_branch"
| "branch_of_call (Send_file (Produced v)) = File_branch"
| "branch_of_call (Send_embed v) = Embed_branch"
| "branch_of_call (Send_to (Produced v)) = Paginator_branch"
| "branch_of_call (Send_content content (Some am)) = Short_text"
| "branch_of_call (Send_file (Constructed f)) = Inline_file"
| "branch_of_call (Send_to (Constructed i)) = Paginated_text"

definition branch_fired :: "error + (pyobj \<times> call list) \<Rightarrow> call list \<Rightarrow> branch list" where
  "branch_fired outcome chat =
     (case outcome of
        Inl e \<Rightarrow> [Inline_file]
      | Inr (r, chat') \<Rightarrow> map branch_of_call (drop (length chat) chat'))"

definition text_branches :: "branch set" where
  "text_branches = {Short_text, Inline_file, Paginated_text}"

text \<open>The produced object a call hands to the client as it is, if any.\<close>

fun forwarded_object :: "call \<Rightarrow> pyvalue option" where
  "forwarded_object (Send_content content am) = None"
| "forwarded_object (Send_file (Produced v)) = Some v"
| "forwarded_object (Send_file (Constructed f)) = None"
| "forwarded_object (Send_embed v) = Some v"
| "forwarded_object (Send_to (Produced v)) = Some v"
| "forwarded_object (Send_to (Constructed i)) = None"

subsection \<open>Occurrences and joins\<close>




text \<open>
  The pieces of a text cut at the occurrences of \<open>old\<close> that a search from the left
  finds: no piece but the last is followed by an occurrence that starts inside it (the
  piece with all but the last character of \<open>old\<close> after it does not contain \<open>old\<close>), and
  the last piece does not contain \<open>old\<close>.
\<close>

fun leftmost_split :: "pystr \<Rightarrow> pystr list \<Rightarrow> bool" where
  "leftmost_split old [] = False"
| "leftmost_split old [s] = (\<not> sublist old s)"
| "leftmost_split old (s # s' # ss) =
     (\<not> sublist old (s @ butlast old) \<and> leftmost_split old (s' # ss))"

definition repeated :: "nat \<Rightarrow> pystr \<Rightarrow> pystr" where
  "repeated k s = concat (replicate k s)"

subsection \<open>Content longer than the cap\<close>


subsection \<open>Decoding UTF-8\<close>

text \<open>
  \<open>bytes.decode('utf-8')\<close> (strict): the shortest form only, no surrogates, nothing
  above U+10FFFF. \<open>None\<close> stands for \<open>UnicodeDecodeError\<close>.
\<close>

definition is_scalar_value :: "nat \<Rightarrow> bool" where
  "is_scalar_value c = (c < 0xD800 \<or> (0xE000 \<le> c \<and> c < 0x110000))"

definition continuation :: "8 word \<Rightarrow> bool" where
  "continuation b = (0x80 \<le> unat b \<and> unat b < 0xC0)"

definition utf8_decode_cp :: "pybytes \<Rightarrow> (nat \<times> pybytes) option" where
  "utf8_decode_cp bs =
     (case bs of
        [] \<Rightarrow> None
      | b0 # bs1 \<Rightarrow>
          if unat b0 < 0x80 then Some (unat b0, bs1)
          else if 0xC2 \<le> unat b0 \<and> unat b0 < 0xE0 then
            (case bs1 of
               b1 # rest \<Rightarrow>
                 if continuation b1
                 then Some ((unat b0 - 0xC0) * 64 + (unat b1 - 0x80), rest)
                 else None
             | _ \<Rightarrow> None)
          else if 0xE0 \<le> unat b0 \<and> unat b0 < 0xF0 then
            (case bs1 of
               b1 # b2 # rest \<Rightarrow>
                 let c = (unat b0 - 0xE0) * 4096 + (unat b1 - 0x80) * 64 + (unat b2 - 0x80)
                 in if continuation b1 \<and> continuation b2 \<and> 0x800 \<le> c \<and>
                       \<not> (0xD800 \<le> c \<and> c \<le> 0xDFFF)
                    then Some (c, rest) else None
             | _ \<Rightarrow> None)
          else if 0xF0 \<le> unat b0 \<and> unat b0 < 0xF5 then
            (case bs1 of
               b1 # b2 # b3 # rest \<Rightarrow>
                 let c = (unat b0 - 0xF0) * 262144 + (unat b1 - 0x80) * 4096
                           + (unat b2 - 0x80) * 64 + (unat b3 - 0x80)
                 in if continuation b1 \<and> continuation b2 \<and> continuation b3 \<and>
                       0x10000 \<le> c \<and> c < 0x110000
                    then Some (c, rest) else None
             | _ \<Rightarrow> None)
          else None)"

function utf8_decode :: "pybytes \<Rightarrow> pystr option" where
  "utf8_decode bs =
     (if bs = [] then Some []
      else (case utf8_decode_cp bs of
              None \<Rightarrow> None
            | Some (c, rest) \<Rightarrow> map_option ((#) c) (utf8_decode rest)))"
  by pat_completeness auto
termination
  by (relation "measure length") (auto simp: utf8_decode_cp_def Let_def split: list.splits if_splits)

declare utf8_decode.simps [simp del]

subsection \<open>Pages\<close>

text \<open>
  Modelled from the spec: how the paginator (\<open>WrappedPaginator\<close> and
  \<open>PaginatorInterface\<close>, jishaku.paginators, and the paginator of the chat library) cuts
  its lines into pages is not in this file. The spec says that a page is the fixed prefix,
  a part of the content and the closing suffix, that each page stays within the page
  budget, and that the parts put together again give the content. So a page carries at
  most \<open>max_size\<close> minus the two fences of content, and the content is cut at that
  length.
\<close>

function chunks :: "nat \<Rightarrow> 'a list \<Rightarrow> 'a list list" where
  "chunks n xs = (if n = 0 \<or> xs = [] then [] else take n xs # chunks n (drop n xs))"
  by pat_completeness auto
termination
  by (relation "measure (\<lambda>(n, xs). length xs)") auto

declare chunks.simps [simp del]

definition page_room :: "paginator \<Rightarrow> nat" where
  "page_room p = max_size p - length (pg_prefix p) - length (pg_suffix p)"

definition pages :: "paginator \<Rightarrow> pystr list" where
  "pages p =
     map (\<lambda>c. pg_prefix p @ c @ pg_suffix p) (chunks (page_room p) (concat (pg_lines p)))"

definition content_of_page :: "paginator \<Rightarrow> pystr \<Rightarrow> pystr" where
  "content_of_page p pg =
     take (length pg - length (pg_prefix p) - length (pg_suffix p))
       (drop (length (pg_prefix p)) pg)"

subsection \<open>Accesses to the scope\<close>

text \<open>
  A history of the feature: the scope is accessed, or a name is assigned in the scope at
  some address (an assignment through an address that was never handed out changes
  nothing). \<open>run\<close> returns, for each access in order, the address it returned and the
  scope found there at that moment.
\<close>

datatype event = Access | Assign nat pystr pyobj

definition assign :: "nat \<Rightarrow> pystr \<Rightarrow> pyobj \<Rightarrow> store \<Rightarrow> store" where
  "assign a name v h = (if a < length h then h[a := AList.update name v (h ! a)] else h)"

fun run :: "feature \<Rightarrow> event list \<Rightarrow> store \<Rightarrow> (nat \<times> scope) list \<times> store" where
  "run self [] h = ([], h)"
| "run self (Access # es) h =
     (let (a, h1) = scope self h;
          (seen, h2) = run self es h1
      in ((a, h1 ! a) # seen, h2))"
| "run self (Assign a name v # es) h = run self es (assign a name v h)"

subsection \<open>The expected table of convertables\<close>



section \<open>Sample objects\<close>

text \<open>Concrete objects on which the theorems below are instantiated.\<close>

definition plain_str :: "pystr \<Rightarrow> pyvalue" where
  "plain_str s =
     \<lparr>isinstance_Message = False, isinstance_File = False, isinstance_Embed = False,
      isinstance_PaginatorInterface = False, isinstance_str = True,
      jump_url = [], str_value = s, repr = lit [CHR 0x27] @ s @ lit [CHR 0x27]\<rparr>"

definition sample_bot :: bot where
  "sample_bot = \<lparr>http_token = Some (lit ''MTIz.Zm9v.YmFy'')\<rparr>"

definition sample_author :: entity where
  "sample_author = \<lparr>snowflake = 7, mention = lit ''<@7>''\<rparr>"

definition sample_ctx :: ContextA where
  "sample_ctx =
     \<lparr>author = sample_author, ctx_bot = sample_bot, interaction = None,
      ctx_message = \<lparr>mentions = [], channel_mentions = [], role_mentions = []\<rparr>,
      send_reply = (\<lambda>c. Opaque 1), file_check = (\<lambda>size. size < 50000),
      var_dict = []\<rparr>"

definition sample_feature :: feature where
  "sample_feature =
     \<lparr>stored_scope = 0, retain = True, last_result = PyNone, bot = sample_bot\<rparr>"

definition zwsp_feature :: feature where
  "zwsp_feature = sample_feature\<lparr>bot := \<lparr>http_token = Some zero_width_space\<rparr>\<rparr>"


definition short_token_feature :: feature where
  "short_token_feature = sample_feature\<lparr>bot := \<lparr>http_token = Some (lit ''hunter2'')\<rparr>\<rparr>"



definition sample_message :: pyvalue where
  "sample_message =
     \<lparr>isinstance_Message = True, isinstance_File = False, isinstance_Embed = False,
      isinstance_PaginatorInterface = False, isinstance_str = False,
      jump_url = lit ''https://discord.com/channels/1/2/3'', str_value = [],
      repr = lit ''<Message id=3>''\<rparr>"

definition sample_int :: pyvalue where
  "sample_int =
     \<lparr>isinstance_Message = False, isinstance_File = False, isinstance_Embed = False,
      isinstance_PaginatorInterface = False, isinstance_str = False,
      jump_url = [], str_value = [], repr = lit ''42''\<rparr>"

definition sample_list :: pyvalue where
  "sample_list =
     \<lparr>isinstance_Message = False, isinstance_File = False, isinstance_Embed = False,
      isinstance_PaginatorInterface = False, isinstance_str = False,
      jump_url = [], str_value = [], repr = repeated 1000 (lit ''spam '')\<rparr>"

definition paging_ctx :: ContextA where
  "paging_ctx = sample_ctx\<lparr>file_check := (\<lambda>size. False)\<rparr>"

definition long_text :: pystr where
  "long_text = repeated 1000 (lit ''spam '')"

definition surrogate_text :: pystr where
  "surrogate_text = 0xD800 # repeated 2500 (lit ''a'')"

definition sample_events :: "event list" where
  "sample_events = [Access, Assign 0 (lit ''x'') (Opaque 5), Assign 1 (lit ''x'') (Opaque 5), Access]"






section \<open>Facts about strings\<close>

lemma py_strip_Nil_iff: "py_strip s = [] \<longleftrightarrow> (\<forall>c\<in>set s. py_isspace c)"
proof
  assume "py_strip s = []"
  then have a: "\<forall>x\<in>set (dropWhile py_isspace s). py_isspace x"
    by (simp add: py_strip_def)
  have "dropWhile py_isspace s = []"
  proof (rule ccontr)
    assume n: "dropWhile py_isspace s \<noteq> []"
    then have "\<not> py_isspace (hd (dropWhile py_isspace s))" by (rule hd_dropWhile)
    moreover have "hd (dropWhile py_isspace s) \<in> set (dropWhile py_isspace s)"
      using n by simp
    ultimately show False using a by blast
  qed
  then show "\<forall>c\<in>set s. py_isspace c" by simp
next
  assume "\<forall>c\<in>set s. py_isspace c"
  then show "py_strip s = []" by (auto simp: py_strip_def dest: set_dropWhileD)
qed

lemma replace_from_single:
  "old \<noteq> [c] \<Longrightarrow> replace_from old new [c] = [c]"
  by (cases old) (auto simp: replace_from.simps)

lemma replace_from_self: "old \<noteq> [] \<Longrightarrow> replace_from old new old = new"
  by (cases old) (auto simp: replace_from.simps)

lemma replace_from_prefix:
  "old \<noteq> [] \<Longrightarrow> replace_from old new (old @ rest) = new @ replace_from old new rest"
  by (cases old) (simp_all add: replace_from.simps)

lemma replace_from_copies:
  "old \<noteq> [] \<Longrightarrow> replace_from old new (concat (replicate k old)) = concat (replicate k new)"
  by (induction k) (simp_all add: replace_from.simps replace_from_prefix)


lemma token_omitted_nonempty: "token_omitted \<noteq> []"
  by (simp add: token_omitted_def lit_def)



lemma length_repeated: "length (repeated k s) = k * length s"
  unfolding repeated_def by (induction k) simp_all

lemma set_repeated: "0 < k \<Longrightarrow> set (repeated k s) = set s"
  unfolding repeated_def by (induction k) auto

lemma sublist_repeated: "0 < k \<Longrightarrow> sublist s (repeated k s)"
proof -
  assume "0 < k"
  then obtain j where "k = Suc j" by (cases k) auto
  then have "repeated k s = [] @ s @ repeated j s" by (simp add: repeated_def)
  then show ?thesis unfolding sublist_def by blast
qed

lemma replace_from_repeated:
  "old \<noteq> [] \<Longrightarrow> replace_from old new (repeated k old) = repeated k new"
  unfolding repeated_def by (rule replace_from_copies)



















lemma overlap_example:
  "\<not> leftmost_split (lit ''aba'') [lit ''ab'', []] \<and>
   leftmost_split (lit ''aba'') [[], lit ''ba''] \<and>
   py_replace (lit ''ababa'') (lit ''aba'') token_omitted = lit ''[token omitted]ba''"
  by (simp add: lit_def sublist_code py_replace_def replace_from.simps token_omitted_def)



lemma short_content_blank:
  assumes "\<forall>c\<in>set t. py_isspace c"
  shows "short_content self t =
    (if http_token (bot self) = Some zero_width_space then token_omitted else zero_width_space)"
proof -
  have s: "py_strip t = []" using assms by (simp add: py_strip_Nil_iff)
  show ?thesis
  proof (cases "http_token (bot self)")
    case None
    then show ?thesis by (simp add: short_content_def s)
  next
    case (Some tok)
    show ?thesis
    proof (cases "tok = zero_width_space")
      case True
      then show ?thesis using Some
        by (simp add: short_content_def s py_replace_def zero_width_space_def Let_def
            replace_from_self)
    next
      case False
      then show ?thesis using Some
        by (simp add: short_content_def s py_replace_def zero_width_space_def replace_from_single Let_def)
    qed
  qed
qed

section \<open>Classification\<close>

lemma text_of_normalized: "text_of v = normalized_text v"
  by (simp add: text_of_def normalized_text_def)

lemma find_first_match:
  "find (branch_test ctx v) branch_order =
     Some (if isinstance_Message v then Message_branch
           else if isinstance_File v then File_branch
           else if isinstance_Embed v then Embed_branch
           else if isinstance_PaginatorInterface v then Paginator_branch
           else if length (normalized_text v) \<le> 2000 then Short_text
           else if file_check ctx (length (normalized_text v)) then Inline_file
           else Paginated_text)"
  by (simp add: branch_order_def)

lemma branch_fired_handler:
  "branch_fired (jsk_python_result_handling self ctx v chat) chat =
     [if isinstance_Message v then Message_branch
           else if isinstance_File v then File_branch
           else if isinstance_Embed v then Embed_branch
           else if isinstance_PaginatorInterface v then Paginator_branch
           else if length (normalized_text v) \<le> 2000 then Short_text
           else if file_check ctx (length (normalized_text v)) then Inline_file
           else Paginated_text]"
  by (simp add: jsk_python_result_handling_def branch_fired_def ctx_send_def Let_def
      text_of_normalized split: sum.splits)

lemma handler_branch_action:
  "jsk_python_result_handling self ctx v chat =
     (case branch_action self ctx v
        (if isinstance_Message v then Message_branch
         else if isinstance_File v then File_branch
         else if isinstance_Embed v then Embed_branch
         else if isinstance_PaginatorInterface v then Paginator_branch
         else if length (normalized_text v) \<le> 2000 then Short_text
         else if file_check ctx (length (normalized_text v)) then Inline_file
         else Paginated_text) of
        Inl e \<Rightarrow> Inl e
      | Inr c \<Rightarrow> Inr (send_reply ctx c, chat @ [c]))"
  by (simp add: jsk_python_result_handling_def ctx_send_def Let_def text_of_normalized
      split: sum.splits)

lemma length_sample_list: "length (repeated 1000 (lit ''spam '')) = 5000"
  by (simp add: length_repeated lit_def)

text \<open>
  C1. For every produced value exactly one of the seven branches fires: it is the first
  branch, in the order message, file, embed, paginator interface, short text, inline
  file, paginated text, whose test holds, where the three text tests are made on the
  value itself if it is a string and on its \<open>repr\<close> otherwise. The dispatcher does what
  that branch says, on that text: it makes the one call of the branch and returns what
  the client answered (or raises, in the inline-file branch, when the text cannot be
  encoded). A value that is a message, a file, an embed or a paginator interface never
  reaches one of the three text branches.
\<close>

theorem dispatch_first_match:
  "\<exists>b. find (branch_test ctx v) branch_order = Some b \<and>
       branch_fired (jsk_python_result_handling self ctx v chat) chat = [b] \<and>
       jsk_python_result_handling self ctx v chat =
         (case branch_action self ctx v b of
            Inl e \<Rightarrow> Inl e
          | Inr c \<Rightarrow> Inr (send_reply ctx c, chat @ [c])) \<and>
       (isinstance_Message v \<or> isinstance_File v \<or> isinstance_Embed v \<or>
          isinstance_PaginatorInterface v \<longrightarrow> b \<notin> text_branches) \<and>
       (\<forall>r chat'. jsk_python_result_handling self ctx v chat = Inr (r, chat') \<longrightarrow>
          (\<exists>c. chat' = chat @ [c] \<and> r = send_reply ctx c))"
proof -
  have calls: "\<forall>r chat'. jsk_python_result_handling self ctx v chat = Inr (r, chat') \<longrightarrow>
          (\<exists>c. chat' = chat @ [c] \<and> r = send_reply ctx c)"
    by (auto simp: jsk_python_result_handling_def ctx_send_def Let_def
        split: sum.splits if_splits)
  show ?thesis
    unfolding find_first_match branch_fired_handler
    using calls handler_branch_action [of self ctx v chat]
    by (simp add: text_branches_def)
qed

theorem dispatch_first_match_witness:
  "find (branch_test sample_ctx sample_message) branch_order = Some Message_branch \<and>
   branch_fired (jsk_python_result_handling sample_feature sample_ctx sample_message []) []
     = [Message_branch] \<and>
   Message_branch \<notin> text_branches \<and>
   find (branch_test sample_ctx sample_int) branch_order = Some Short_text \<and>
   jsk_python_result_handling sample_feature sample_ctx sample_int [] =
     Inr (Opaque 1, [Send_content (lit ''42'') (Some AllowedMentions_none)]) \<and>
   find (branch_test sample_ctx sample_list) branch_order = Some Inline_file \<and>
   branch_fired (jsk_python_result_handling sample_feature sample_ctx sample_list []) []
     = [Inline_file]"
proof -
  have c: "short_content sample_feature (lit ''42'') = lit ''42''"
    by (simp add: short_content_def sample_feature_def sample_bot_def py_strip_def
        py_isspace_def py_replace_def replace_from.simps lit_def)
  have n: "normalized_text sample_int = lit ''42''"
    "normalized_text sample_list = repeated 1000 (lit ''spam '')"
    by (simp_all add: normalized_text_def sample_int_def sample_list_def)
  have r: "send_reply sample_ctx = (\<lambda>c. Opaque 1)" by (simp add: sample_ctx_def)
  have fm: "find (branch_test sample_ctx sample_message) branch_order = Some Message_branch"
    by (simp add: find_first_match sample_message_def)
  have fi: "find (branch_test sample_ctx sample_int) branch_order = Some Short_text"
    by (simp add: find_first_match n) (simp add: sample_int_def lit_def)
  have fl: "find (branch_test sample_ctx sample_list) branch_order = Some Inline_file"
    by (simp add: find_first_match n length_sample_list)
      (simp add: sample_list_def sample_ctx_def)
  obtain b1 where b1: "find (branch_test sample_ctx sample_message) branch_order = Some b1"
      "branch_fired (jsk_python_result_handling sample_feature sample_ctx sample_message []) []
         = [b1]"
      "isinstance_Message sample_message \<or> isinstance_File sample_message \<or>
         isinstance_Embed sample_message \<or> isinstance_PaginatorInterface sample_message
       \<longrightarrow> b1 \<notin> text_branches"
    using dispatch_first_match [of sample_ctx sample_message sample_feature "[]"] by blast
  have e1: "b1 = Message_branch" using b1(1) fm by simp
  have t1: "Message_branch \<notin> text_branches"
    using b1(3) e1 by (simp add: sample_message_def)
  obtain b2 where b2: "find (branch_test sample_ctx sample_int) branch_order = Some b2"
      "jsk_python_result_handling sample_feature sample_ctx sample_int [] =
         (case branch_action sample_feature sample_ctx sample_int b2 of
            Inl e \<Rightarrow> Inl e
          | Inr c \<Rightarrow> Inr (send_reply sample_ctx c, [] @ [c]))"
    using dispatch_first_match [of sample_ctx sample_int sample_feature "[]"] by blast
  have e2: "b2 = Short_text" using b2(1) fi by simp
  have h2: "jsk_python_result_handling sample_feature sample_ctx sample_int [] =
     Inr (Opaque 1, [Send_content (lit ''42'') (Some AllowedMentions_none)])"
    using b2(2) unfolding e2 by (simp add: n c r)
  obtain b3 where b3: "find (branch_test sample_ctx sample_list) branch_order = Some b3"
      "branch_fired (jsk_python_result_handling sample_feature sample_ctx sample_list []) []
         = [b3]"
    using dispatch_first_match [of sample_ctx sample_list sample_feature "[]"] by blast
  have e3: "b3 = Inline_file" using b3(1) fl by simp
  show ?thesis using fm b1(2) e1 t1 fi h2 fl b3(2) e3 by simp
qed

section \<open>A produced message\<close>

text \<open>
  C9, as amended. When the produced value is a message, the dispatcher sends the channel
  the text \<open><Message <jump_url>>\<close>, a link to the message and not the message object
  or its content, without an \<open>allowed_mentions\<close> argument, and returns what the client
  answered to that send.
\<close>

theorem message_sent_as_link:
  assumes "isinstance_Message result"
  shows "jsk_python_result_handling self ctx result chat =
      Inr (send_reply ctx (Send_content (lit ''<Message <'' @ jump_url result @ lit ''>>'') None),
           chat @ [Send_content (lit ''<Message <'' @ jump_url result @ lit ''>>'') None])"
  using assms by (simp add: jsk_python_result_handling_def ctx_send_def)

theorem message_sent_as_link_witness:
  "jsk_python_result_handling sample_feature sample_ctx sample_message [] =
      Inr (Opaque 1, [Send_content (lit ''<Message <https://discord.com/channels/1/2/3>>'') None])"
  using message_sent_as_link [of sample_message sample_feature sample_ctx "[]"]
  by (simp add: sample_message_def sample_ctx_def lit_def)

text \<open>
  The claim as stated, that the message is forwarded to the channel, fails: for the sample
  message the one call made carries a text; no produced object is handed to the client.
\<close>

theorem message_forwarded_counterexample:
  "isinstance_Message sample_message \<and>
   jsk_python_result_handling sample_feature sample_ctx sample_message [] =
      Inr (Opaque 1, [Send_content (lit ''<Message <https://discord.com/channels/1/2/3>>'') None]) \<and>
   forwarded_object (Send_content (lit ''<Message <https://discord.com/channels/1/2/3>>'') None)
     \<noteq> Some sample_message"
  by (simp add: jsk_python_result_handling_def ctx_send_def sample_message_def sample_ctx_def
      lit_def)

section \<open>Short text is sent without notifications\<close>

text \<open>
  C3. A produced value that is none of message, file, embed or paginator interface and
  whose text (itself, or its \<open>repr\<close>) has at most 2000 characters is dispatched by one
  \<open>send\<close> whose \<open>allowed_mentions\<close> argument is given and has every kind of mention
  turned off, whatever the text contains.
\<close>

theorem short_text_mentions_disabled:
  assumes "\<not> isinstance_Message result" "\<not> isinstance_File result"
    "\<not> isinstance_Embed result" "\<not> isinstance_PaginatorInterface result"
    "length (text_of result) \<le> 2000"
  shows "\<exists>content am.
      jsk_python_result_handling self ctx result chat =
        Inr (send_reply ctx (Send_content content (Some am)),
             chat @ [Send_content content (Some am)])
      \<and> \<not> everyone am \<and> \<not> users am \<and> \<not> roles am \<and> \<not> replied_user am"
  using assms
  by (simp add: jsk_python_result_handling_def ctx_send_def AllowedMentions_none_def Let_def)

theorem short_text_mentions_disabled_witness:
  "\<exists>content am.
      jsk_python_result_handling sample_feature sample_ctx (plain_str (lit ''hello'')) [] =
        Inr (send_reply sample_ctx (Send_content content (Some am)),
             [] @ [Send_content content (Some am)])
      \<and> \<not> everyone am \<and> \<not> users am \<and> \<not> roles am \<and> \<not> replied_user am"
  using short_text_mentions_disabled
    [of "plain_str (lit ''hello'')" sample_feature sample_ctx "[]"]
  by (simp add: plain_str_def text_of_def lit_def)

section \<open>Blank text\<close>

text \<open>
  C4, as amended. For every text of at most 2000 characters that is empty or consists of
  whitespace only, the content sent is the single character U+200B, unless the
  credential is itself the string U+200B, in which case the redaction that follows
  turns the placeholder into the marker. In both cases the content is not empty.
\<close>

theorem blank_text_placeholder:
  assumes "\<not> isinstance_Message result" "\<not> isinstance_File result"
    "\<not> isinstance_Embed result" "\<not> isinstance_PaginatorInterface result"
    "length (text_of result) \<le> 2000"
    "\<forall>c\<in>set (text_of result). py_isspace c"
  shows "\<exists>content.
      jsk_python_result_handling self ctx result chat =
        Inr (ctx_send ctx (Send_content content (Some AllowedMentions_none)) chat)
      \<and> content =
          (if http_token (bot self) = Some zero_width_space then token_omitted
           else zero_width_space)
      \<and> content \<noteq> []"
  using assms
  by (simp add: jsk_python_result_handling_def Let_def short_content_blank
      token_omitted_nonempty zero_width_space_def)

theorem blank_text_placeholder_witness:
  "\<exists>content.
      jsk_python_result_handling sample_feature sample_ctx (plain_str (lit ''  '')) [] =
        Inr (ctx_send sample_ctx (Send_content content (Some AllowedMentions_none)) [])
      \<and> content = zero_width_space \<and> content \<noteq> []"
  using blank_text_placeholder [of "plain_str (lit ''  '')" sample_feature sample_ctx "[]"]
  by (simp add: plain_str_def text_of_def lit_def py_isspace_def sample_feature_def
      sample_bot_def zero_width_space_def)

text \<open>
  The claim as stated fails when the credential is the placeholder: the empty text is
  then sent as the marker.
\<close>

theorem blank_text_placeholder_counterexample:
  "length (text_of (plain_str [])) \<le> 2000 \<and> py_strip (text_of (plain_str [])) = [] \<and>
   jsk_python_result_handling zwsp_feature sample_ctx (plain_str []) [] =
     Inr (Opaque 1, [Send_content token_omitted (Some AllowedMentions_none)]) \<and>
   token_omitted \<noteq> zero_width_space"
  by (simp add: jsk_python_result_handling_def plain_str_def text_of_def py_strip_def
      short_content_def zwsp_feature_def sample_feature_def py_replace_def
      zero_width_space_def ctx_send_def sample_ctx_def token_omitted_def lit_def
      replace_from.simps)

section \<open>Redaction of the credential\<close>




section \<open>The length of the redacted content\<close>

lemma copies_exceed_cap:
  assumes "http_token (bot self) = Some tok" "tok \<noteq> []" "length tok < 15"
    "\<exists>c\<in>set tok. \<not> py_isspace c"
  shows "length (repeated 134 tok) \<le> 2000 \<and> sublist tok (repeated 134 tok) \<and>
    jsk_python_result_handling self ctx (plain_str (repeated 134 tok)) chat =
      Inr (ctx_send ctx
        (Send_content (repeated 134 token_omitted) (Some AllowedMentions_none)) chat) \<and>
    length (repeated 134 token_omitted) = 2010"
proof -
  have len: "length (repeated 134 tok) \<le> 2000"
    using assms(3) by (simp add: length_repeated)
  have sub: "sublist tok (repeated 134 tok)"
    by (rule sublist_repeated) simp
  obtain c where c: "c \<in> set tok" "\<not> py_isspace c" using assms(4) by blast
  have "c \<in> set (repeated 134 tok)" using c(1) by (simp add: set_repeated)
  then have ns: "py_strip (repeated 134 tok) \<noteq> []"
    using c(2) by (auto simp: py_strip_Nil_iff)
  have sc: "short_content self (repeated 134 tok) = repeated 134 token_omitted"
    using assms(1,2) ns
    by (simp add: short_content_def py_replace_def replace_from_repeated)
  have l2: "length (repeated 134 token_omitted) = 2010"
    by (simp add: length_repeated token_omitted_def lit_def)
  show ?thesis using len sub sc l2
    by (simp add: jsk_python_result_handling_def plain_str_def text_of_def Let_def)
qed

lemma copies_exceed_cap_example:
  "length (repeated 134 (lit ''hunter2'')) \<le> 2000 \<and>
   sublist (lit ''hunter2'') (repeated 134 (lit ''hunter2'')) \<and>
   jsk_python_result_handling short_token_feature sample_ctx
       (plain_str (repeated 134 (lit ''hunter2''))) [] =
     Inr (Opaque 1, [Send_content (repeated 134 token_omitted) (Some AllowedMentions_none)]) \<and>
   2000 < length (repeated 134 token_omitted)"
  using copies_exceed_cap [of short_token_feature "lit ''hunter2''" sample_ctx "[]"]
  by (simp add: short_token_feature_def sample_feature_def lit_def py_isspace_def ctx_send_def
      sample_ctx_def)










section \<open>Long text as a file\<close>

lemma unat_byte: "n < 256 \<Longrightarrow> unat (byte n) = n"
  by (simp add: byte_def unat_of_nat)

lemma lead2: "0x80 \<le> c \<Longrightarrow> c < 0x800 \<Longrightarrow> 0xC2 \<le> 0xC0 + c div 64 \<and> 0xC0 + c div 64 < (0xE0::nat)"
proof -
  assume "0x80 \<le> c" "c < 0x800"
  then have "128 div 64 \<le> c div 64" "c div 64 < 32"
    by (simp_all add: div_le_mono less_mult_imp_div_less)
  then show ?thesis by simp
qed

lemma lead3: "c < 0x10000 \<Longrightarrow> 0xE0 + c div 4096 < (0xF0::nat)"
  by (simp add: less_mult_imp_div_less)

lemma lead4: "c < 0x110000 \<Longrightarrow> 0xF0 + c div 262144 < (0xF5::nat)"
  by (simp add: less_mult_imp_div_less)

lemma trail: "0x80 \<le> 0x80 + x mod 64 \<and> 0x80 + x mod 64 < (0xC0::nat)"
proof -
  have "x mod 64 < 64" by simp
  then show ?thesis by linarith
qed

lemma continuation_byte: "continuation (byte (0x80 + x mod 64))"
  using trail [of x] by (simp add: continuation_def unat_byte)

lemma unat_trail: "unat (byte (0x80 + x mod 64)) - 0x80 = x mod 64"
  using trail [of x] by (simp add: unat_byte)

lemma split3: "(c::nat) div 4096 * 4096 + c div 64 mod 64 * 64 + c mod 64 = c"
proof -
  have m: "c mod 4096 = 64 * (c div 64 mod 64) + c mod 64"
    using mod_mult2_eq [of c 64 64] by simp
  have "c = 4096 * (c div 4096) + c mod 4096" by simp
  then show ?thesis using m by linarith
qed

lemma split4:
  "(c::nat) div 262144 * 262144 + c div 4096 mod 64 * 4096 + c div 64 mod 64 * 64 + c mod 64 = c"
proof -
  have m: "c mod 4096 = 64 * (c div 64 mod 64) + c mod 64"
    using mod_mult2_eq [of c 64 64] by simp
  have n: "c mod 262144 = 4096 * (c div 4096 mod 64) + c mod 4096"
    using mod_mult2_eq [of c 4096 64] by simp
  have "c = 262144 * (c div 262144) + c mod 262144" by simp
  then show ?thesis using m n by linarith
qed

lemma utf8_cp_roundtrip1:
  assumes "c < 0x80"
  shows "utf8_encode_cp c = Inr [byte c] \<and> utf8_decode_cp ([byte c] @ rest) = Some (c, rest)"
  using assms by (simp add: utf8_encode_cp_def utf8_decode_cp_def unat_byte)

lemma utf8_cp_roundtrip2:
  assumes "0x80 \<le> c" "c < 0x800"
  shows "utf8_encode_cp c = Inr [byte (0xC0 + c div 64), byte (0x80 + c mod 64)] \<and>
    utf8_decode_cp ([byte (0xC0 + c div 64), byte (0x80 + c mod 64)] @ rest) = Some (c, rest)"
proof -
  have l: "0xC2 \<le> 0xC0 + c div 64" "0xC0 + c div 64 < 0xE0" using lead2 [OF assms] by simp_all
  then have u: "unat (byte (0xC0 + c div 64)) = 0xC0 + c div 64" by (simp add: unat_byte)
  have e: "utf8_encode_cp c = Inr [byte (0xC0 + c div 64), byte (0x80 + c mod 64)]"
    using assms by (simp add: utf8_encode_cp_def)
  have d: "utf8_decode_cp ([byte (0xC0 + c div 64), byte (0x80 + c mod 64)] @ rest) = Some (c, rest)"
    using l by (simp add: utf8_decode_cp_def u continuation_byte unat_trail)
  show ?thesis using e d by simp
qed

lemma utf8_cp_roundtrip3:
  assumes "0x800 \<le> c" "c < 0x10000" "\<not> (0xD800 \<le> c \<and> c \<le> 0xDFFF)"
  shows "utf8_encode_cp c =
      Inr [byte (0xE0 + c div 4096), byte (0x80 + (c div 64) mod 64), byte (0x80 + c mod 64)] \<and>
    utf8_decode_cp ([byte (0xE0 + c div 4096), byte (0x80 + (c div 64) mod 64),
        byte (0x80 + c mod 64)] @ rest) = Some (c, rest)"
proof -
  have l: "0xE0 + c div 4096 < 0xF0" using lead3 [OF assms(2)] .
  then have u: "unat (byte (0xE0 + c div 4096)) = 0xE0 + c div 4096" by (simp add: unat_byte)
  have e: "utf8_encode_cp c =
      Inr [byte (0xE0 + c div 4096), byte (0x80 + (c div 64) mod 64), byte (0x80 + c mod 64)]"
    using assms by (simp add: utf8_encode_cp_def)
  have d: "utf8_decode_cp ([byte (0xE0 + c div 4096), byte (0x80 + (c div 64) mod 64),
        byte (0x80 + c mod 64)] @ rest) = Some (c, rest)"
    using l assms
    by (simp add: utf8_decode_cp_def u continuation_byte unat_trail split3 Let_def)
  show ?thesis using e d by simp
qed

lemma utf8_cp_roundtrip4:
  assumes "0x10000 \<le> c" "c < 0x110000"
  shows "utf8_encode_cp c =
      Inr [byte (0xF0 + c div 262144), byte (0x80 + (c div 4096) mod 64),
           byte (0x80 + (c div 64) mod 64), byte (0x80 + c mod 64)] \<and>
    utf8_decode_cp ([byte (0xF0 + c div 262144), byte (0x80 + (c div 4096) mod 64),
           byte (0x80 + (c div 64) mod 64), byte (0x80 + c mod 64)] @ rest) = Some (c, rest)"
proof -
  have l: "0xF0 + c div 262144 < 0xF5" using lead4 [OF assms(2)] .
  then have u: "unat (byte (0xF0 + c div 262144)) = 0xF0 + c div 262144" by (simp add: unat_byte)
  have e: "utf8_encode_cp c =
      Inr [byte (0xF0 + c div 262144), byte (0x80 + (c div 4096) mod 64),
           byte (0x80 + (c div 64) mod 64), byte (0x80 + c mod 64)]"
    using assms by (simp add: utf8_encode_cp_def)
  have d: "utf8_decode_cp ([byte (0xF0 + c div 262144), byte (0x80 + (c div 4096) mod 64),
           byte (0x80 + (c div 64) mod 64), byte (0x80 + c mod 64)] @ rest) = Some (c, rest)"
    using l assms
    by (simp add: utf8_decode_cp_def u continuation_byte unat_trail split4 Let_def)
  show ?thesis using e d by simp
qed

lemma utf8_cp_roundtrip:
  assumes "is_scalar_value c"
  shows "\<exists>bs. utf8_encode_cp c = Inr bs \<and> bs \<noteq> [] \<and> utf8_decode_cp (bs @ rest) = Some (c, rest)"
proof -
  consider "c < 0x80" | "0x80 \<le> c" "c < 0x800" | "0x800 \<le> c" "c < 0x10000" | "0x10000 \<le> c"
    by linarith
  then show ?thesis
  proof cases
    case 1
    then show ?thesis using utf8_cp_roundtrip1 [of c rest] by blast
  next
    case 2
    then show ?thesis using utf8_cp_roundtrip2 [of c rest] by blast
  next
    case 3
    have "\<not> (0xD800 \<le> c \<and> c \<le> 0xDFFF)" using assms by (auto simp: is_scalar_value_def)
    then show ?thesis using 3 utf8_cp_roundtrip3 [of c rest] by blast
  next
    case 4
    have "c < 0x110000" using assms 4 by (auto simp: is_scalar_value_def)
    then show ?thesis using 4 utf8_cp_roundtrip4 [of c rest] by blast
  qed
qed

lemma utf8_roundtrip:
  "\<forall>c\<in>set t. is_scalar_value c \<Longrightarrow>
   \<exists>bytes. utf8_encode t = Inr bytes \<and> utf8_decode bytes = Some t"
proof (induction t)
  case Nil
  then show ?case by (simp add: utf8_decode.simps)
next
  case (Cons c t)
  then obtain rest where rest: "utf8_encode t = Inr rest" "utf8_decode rest = Some t"
    by auto
  have "is_scalar_value c" using Cons(2) by simp
  then obtain bs where bs: "utf8_encode_cp c = Inr bs" "bs \<noteq> []"
      "utf8_decode_cp (bs @ rest) = Some (c, rest)"
    using utf8_cp_roundtrip by blast
  have "utf8_encode (c # t) = Inr (bs @ rest)" using bs(1) rest(1) by simp
  moreover have "utf8_decode (bs @ rest) = Some (c # t)"
    using bs(2,3) rest(2) by (subst utf8_decode.simps) simp
  ultimately show ?case by blast
qed

lemma utf8_encode_surrogate: "utf8_encode (0xD800 # rest) = Inl UnicodeEncodeError"
  by (simp add: utf8_encode_cp_def)

lemma length_long_text: "length long_text = 5000"
  by (simp add: long_text_def length_repeated lit_def)

text \<open>
  C5, as amended. For every text of more than 2000 characters that passes
  \<open>use_file_check\<close> and contains no surrogate code point (U+D800 to U+DFFF), the
  dispatch is one \<open>send\<close> of one file named \<open>output.py\<close> whose content is the UTF-8
  encoding of the text, and decoding that content as UTF-8 gives the text back. No
  paginator is built.
\<close>

theorem long_text_as_file:
  assumes "\<not> isinstance_Message result" "\<not> isinstance_File result"
    "\<not> isinstance_Embed result" "\<not> isinstance_PaginatorInterface result"
    "2000 < length (text_of result)" "file_check ctx (length (text_of result))"
    "\<forall>c\<in>set (text_of result). is_scalar_value c"
  shows "\<exists>bytes.
      jsk_python_result_handling self ctx result chat =
        Inr (send_reply ctx (Send_file (Constructed \<lparr>filename = lit ''output.py'', fp = bytes\<rparr>)),
             chat @ [Send_file (Constructed \<lparr>filename = lit ''output.py'', fp = bytes\<rparr>)]) \<and>
      utf8_encode (text_of result) = Inr bytes \<and>
      utf8_decode bytes = Some (text_of result)"
proof -
  obtain bytes where b: "utf8_encode (text_of result) = Inr bytes"
      "utf8_decode bytes = Some (text_of result)"
    using utf8_roundtrip [OF assms(7)] by blast
  show ?thesis using assms(1-6) b
    by (simp add: jsk_python_result_handling_def Let_def ctx_send_def)
qed

theorem long_text_as_file_witness:
  "\<exists>bytes.
      jsk_python_result_handling sample_feature sample_ctx (plain_str long_text) [] =
        Inr (Opaque 1, [Send_file (Constructed \<lparr>filename = lit ''output.py'', fp = bytes\<rparr>)]) \<and>
      utf8_decode bytes = Some long_text"
proof -
  have s: "\<forall>c\<in>set (text_of (plain_str long_text)). is_scalar_value c"
    by (simp add: text_of_def plain_str_def long_text_def set_repeated lit_def is_scalar_value_def)
  have p: "\<not> isinstance_Message (plain_str long_text)" "\<not> isinstance_File (plain_str long_text)"
    "\<not> isinstance_Embed (plain_str long_text)"
    "\<not> isinstance_PaginatorInterface (plain_str long_text)"
    "2000 < length (text_of (plain_str long_text))"
    "file_check sample_ctx (length (text_of (plain_str long_text)))"
    by (simp_all add: plain_str_def text_of_def length_long_text sample_ctx_def)
  show ?thesis
    using long_text_as_file [OF p s, of sample_feature "[]"]
    by (auto simp add: text_of_def plain_str_def sample_ctx_def)
qed

text \<open>
  The claim as stated fails for a text with a lone surrogate, which a Python string can
  hold: \<open>encode('utf-8')\<close> raises and nothing is sent.
\<close>

theorem long_text_as_file_counterexample:
  "2000 < length (text_of (plain_str surrogate_text)) \<and>
   file_check sample_ctx (length (text_of (plain_str surrogate_text))) \<and>
   jsk_python_result_handling sample_feature sample_ctx (plain_str surrogate_text) [] =
     Inl UnicodeEncodeError"
proof -
  have t: "text_of (plain_str surrogate_text) = surrogate_text"
    by (simp add: text_of_def plain_str_def)
  have l: "length surrogate_text = 2501"
    by (simp add: surrogate_text_def length_repeated lit_def)
  have e: "utf8_encode surrogate_text = Inl UnicodeEncodeError"
    unfolding surrogate_text_def by (rule utf8_encode_surrogate)
  have p: "\<not> isinstance_Message (plain_str surrogate_text)"
    "\<not> isinstance_File (plain_str surrogate_text)"
    "\<not> isinstance_Embed (plain_str surrogate_text)"
    "\<not> isinstance_PaginatorInterface (plain_str surrogate_text)"
    by (simp_all add: plain_str_def)
  show ?thesis
    by (simp add: jsk_python_result_handling_def p t l e Let_def sample_ctx_def)
qed

section \<open>Long text in pages\<close>

lemma chunks_length: "\<forall>c\<in>set (chunks n xs). length c \<le> n"
proof (induction n xs rule: chunks.induct)
  case (1 n xs)
  then show ?case by (subst chunks.simps) auto
qed

lemma concat_chunks: "0 < n \<Longrightarrow> concat (chunks n xs) = xs"
proof (induction n xs rule: chunks.induct)
  case (1 n xs)
  then show ?case by (subst chunks.simps) auto
qed

lemma pages_within_budget: "\<forall>pg\<in>set (pages p). length pg \<le> max_size p"
proof
  fix pg assume "pg \<in> set (pages p)"
  then obtain c where c: "c \<in> set (chunks (page_room p) (concat (pg_lines p)))"
    and pg: "pg = pg_prefix p @ c @ pg_suffix p"
    by (auto simp: pages_def)
  have ne: "page_room p \<noteq> 0"
    using c by (subst (asm) chunks.simps) (auto split: if_splits)
  have "length c \<le> page_room p" using c chunks_length by blast
  then show "length pg \<le> max_size p" using ne pg by (simp add: page_room_def)
qed

lemma pages_content:
  "0 < page_room p \<Longrightarrow> concat (map (content_of_page p) (pages p)) = concat (pg_lines p)"
proof -
  assume r: "0 < page_room p"
  have "map (content_of_page p) (pages p) = chunks (page_room p) (concat (pg_lines p))"
    by (simp add: pages_def content_of_page_def comp_def)
  then show ?thesis using r by (simp add: concat_chunks)
qed

text \<open>
  C6, as amended. For every text of more than 2000 characters that does not pass
  \<open>use_file_check\<close>, the dispatcher builds a paginator with the page budget 1980, the
  opening fence \<open>```py\<close> of 5 characters and the closing fence \<open>```\<close> of 3 characters,
  adds the text to it as one line, binds it to an interface owned by the author of the
  invocation and sends that interface. Each page, fences included, has at most 1980
  characters, and the contents of the pages put together give the text.
\<close>

theorem long_text_paginated:
  assumes "\<not> isinstance_Message result" "\<not> isinstance_File result"
    "\<not> isinstance_Embed result" "\<not> isinstance_PaginatorInterface result"
    "2000 < length (text_of result)" "\<not> file_check ctx (length (text_of result))"
  shows "\<exists>i. jsk_python_result_handling self ctx result chat =
        Inr (send_reply ctx (Send_to (Constructed i)), chat @ [Send_to (Constructed i)]) \<and>
      owner i = author ctx \<and>
      max_size (pi_paginator i) = 1980 \<and>
      pg_prefix (pi_paginator i) = lit ''```py'' \<and> length (pg_prefix (pi_paginator i)) = 5 \<and>
      pg_suffix (pi_paginator i) = lit ''```'' \<and> length (pg_suffix (pi_paginator i)) = 3 \<and>
      pg_lines (pi_paginator i) = [text_of result] \<and>
      (\<forall>pg\<in>set (pages (pi_paginator i)). length pg \<le> 1980) \<and>
      concat (map (content_of_page (pi_paginator i)) (pages (pi_paginator i))) = text_of result"
proof -
  let ?p = "add_line (WrappedPaginator (lit ''```py'') (lit ''```'') 1980) (text_of result)"
  let ?i = "PaginatorInterface (ctx_bot ctx) ?p (author ctx)"
  have h: "jsk_python_result_handling self ctx result chat =
        Inr (send_reply ctx (Send_to (Constructed ?i)), chat @ [Send_to (Constructed ?i)])"
    using assms by (simp add: jsk_python_result_handling_def ctx_send_def Let_def)
  have m: "max_size ?p = 1980" by (simp add: add_line_def WrappedPaginator_def)
  have room: "0 < page_room ?p"
    by (simp add: page_room_def add_line_def WrappedPaginator_def lit_def)
  have b: "\<forall>pg\<in>set (pages ?p). length pg \<le> 1980"
    using pages_within_budget [of ?p] m by simp
  have l: "pg_lines ?p = [text_of result]" by (simp add: add_line_def WrappedPaginator_def)
  have r: "concat (map (content_of_page ?p) (pages ?p)) = text_of result"
    using pages_content [OF room] l by simp
  have pi: "pi_paginator ?i = ?p" "owner ?i = author ctx" by (simp_all add: PaginatorInterface_def)
  have pre: "pg_prefix ?p = lit ''```py''" "pg_suffix ?p = lit ''```''"
    by (simp_all add: add_line_def WrappedPaginator_def)
  have len: "length (lit ''```py'') = 5" "length (lit ''```'') = 3" by (simp_all add: lit_def)
  show ?thesis
    apply (rule exI [of _ ?i])
    using h m b l r pi pre len by simp
qed

theorem long_text_paginated_witness:
  "\<exists>i. jsk_python_result_handling sample_feature paging_ctx (plain_str long_text) [] =
        Inr (Opaque 1, [Send_to (Constructed i)]) \<and>
      owner i = sample_author \<and> max_size (pi_paginator i) = 1980 \<and>
      length (pg_prefix (pi_paginator i)) = 5 \<and> length (pg_suffix (pi_paginator i)) = 3 \<and>
      list_all (\<lambda>pg. length pg \<le> 1980) (pages (pi_paginator i))"
  using long_text_paginated [of "plain_str long_text" paging_ctx sample_feature "[]"]
  by (auto simp add: plain_str_def text_of_def length_long_text paging_ctx_def sample_ctx_def
      list_all_iff)

text \<open>The claim as stated gives the opening fence 7 characters; it has 5.\<close>

theorem fence_prefix_length_counterexample:
  "(case jsk_python_result_handling sample_feature paging_ctx (plain_str long_text) [] of
      Inr (r, [Send_to (Constructed i)]) \<Rightarrow> length (pg_prefix (pi_paginator i))
    | _ \<Rightarrow> 0) = 5"
  by (simp add: jsk_python_result_handling_def plain_str_def text_of_def length_long_text
      paging_ctx_def sample_ctx_def ctx_send_def Let_def PaginatorInterface_def add_line_def
      WrappedPaginator_def lit_def)

section \<open>Mentions\<close>
























section \<open>The scope accessor\<close>

lemma length_assign: "length (assign a name v h) = length h"
  by (simp add: assign_def)

lemma run_Access:
  "fst (run self (Access # es) h) =
     (fst (scope self h), snd (scope self h) ! fst (scope self h))
       # fst (run self es (snd (scope self h)))"
  by (simp split: prod.splits)

lemma run_retaining:
  "retain self \<Longrightarrow> \<forall>p\<in>set (fst (run self es h)). fst p = stored_scope self"
proof (induction es arbitrary: h)
  case Nil
  then show ?case by simp
next
  case (Cons e es)
  show ?case
  proof (cases e)
    case Access
    have "snd (scope self h) = h" "fst (scope self h) = stored_scope self"
      using Cons(2) by (simp_all add: scope_def)
    then show ?thesis using Access Cons(1) [OF Cons(2), of h]
      by (simp add: run_Access del: run.simps)
  next
    case (Assign a name v)
    then show ?thesis using Cons(1) [OF Cons(2), of "assign a name v h"] by simp
  qed
qed

lemma run_ephemeral_fresh:
  "\<not> retain self \<Longrightarrow>
     \<forall>p\<in>set (fst (run self es h)). length h \<le> fst p \<and> snd p = Scope"
proof (induction es arbitrary: h)
  case Nil
  then show ?case by simp
next
  case (Cons e es)
  show ?case
  proof (cases e)
    case Access
    have sc: "snd (scope self h) = h @ [Scope]" "fst (scope self h) = length h"
      using Cons(2) by (simp_all add: scope_def new_Scope_def)
    have "\<forall>p\<in>set (fst (run self es (h @ [Scope]))). length (h @ [Scope]) \<le> fst p \<and> snd p = Scope"
      using Cons(1) [OF Cons(2)] by blast
    then have "\<forall>p\<in>set (fst (run self es (h @ [Scope]))). length h \<le> fst p \<and> snd p = Scope"
      by auto
    then show ?thesis using Access sc
      by (simp add: run_Access del: run.simps)
  next
    case (Assign a name v)
    then show ?thesis using Cons(1) [OF Cons(2), of "assign a name v h"]
      by (simp add: length_assign)
  qed
qed

lemma run_ephemeral_distinct:
  "\<not> retain self \<Longrightarrow> distinct (map fst (fst (run self es h)))"
proof (induction es arbitrary: h)
  case Nil
  then show ?case by simp
next
  case (Cons e es)
  show ?case
  proof (cases e)
    case Access
    have sc: "snd (scope self h) = h @ [Scope]" "fst (scope self h) = length h"
      using Cons(2) by (simp_all add: scope_def new_Scope_def)
    have f: "\<forall>p\<in>set (fst (run self es (h @ [Scope]))). length (h @ [Scope]) \<le> fst p \<and> snd p = Scope"
      using run_ephemeral_fresh [OF Cons(2)] by blast
    then have nin: "length h \<notin> fst ` set (fst (run self es (h @ [Scope])))"
      by auto
    have d: "distinct (map fst (fst (run self es (h @ [Scope]))))"
      using Cons(1) [OF Cons(2)] by blast
    show ?thesis using Access sc nin d
      by (simp add: run_Access del: run.simps)
  next
    case (Assign a name v)
    then show ?thesis using Cons(1) [OF Cons(2), of "assign a name v h"] by simp
  qed
qed

text \<open>
  C8. With retention on, an access returns the stored scope, the same address at every
  access of any history, and changes nothing. With retention off, an access returns a
  new address whose scope is empty and leaves the scopes that existed as they were; in
  any history every access returns an address that no earlier access returned and that
  did not exist before, with an empty scope there, whatever was assigned in between.
\<close>

theorem scope_two_states:
  "(retain self \<longrightarrow>
      scope self h = (stored_scope self, h) \<and>
      (\<forall>p\<in>set (fst (run self es h)). fst p = stored_scope self)) \<and>
   (\<not> retain self \<longrightarrow>
      fst (scope self h) = length h \<and> snd (scope self h) ! fst (scope self h) = Scope \<and>
      take (length h) (snd (scope self h)) = h \<and>
      (\<forall>p\<in>set (fst (run self es h)). length h \<le> fst p \<and> snd p = Scope) \<and>
      distinct (map fst (fst (run self es h))))"
  using run_retaining [of self es h] run_ephemeral_fresh [of self es h]
    run_ephemeral_distinct [of self es h]
  by (simp add: scope_def new_Scope_def)

theorem scope_two_states_witness:
  "fst (run sample_feature sample_events [Scope]) =
     [(0, Scope), (0, [(lit ''x'', Opaque 5)])] \<and>
   fst (run (sample_feature\<lparr>retain := False\<rparr>) sample_events [Scope]) =
     [(1, Scope), (2, Scope)]"
  using scope_two_states [of sample_feature "[Scope]" sample_events]
    scope_two_states [of "sample_feature\<lparr>retain := False\<rparr>" "[Scope]" sample_events]
  by (simp add: sample_feature_def sample_events_def scope_def new_Scope_def assign_def
      Scope_def lit_def)

end
